theory Spec2Isabelle
  imports Complex_Main
begin

section \<open>The viewer's state, as src/src/main.ts sees it\<close>

text \<open>
  main.ts wires third-party components together: it configures two cullers, the
  streaming loader and the highlighter, and installs three listeners (camera rest,
  fragments loaded, fragments disposed) and one delayed callback. The embedding keeps
  the objects main.ts reads or writes, with the fields it touches, and records for each
  external call what main.ts passes to it.

  A three.js object has an identity and a \<open>uuid\<close> string. Two different objects can
  carry the same \<open>uuid\<close>; a JavaScript \<open>Set\<close> tells objects apart by identity.
\<close>

record object3D =
  obj :: nat
  uuid :: string

type_synonym mesh = object3D

record fragment =
  mesh :: mesh

record model = object3D +
  hasProperties :: bool
  isStreamed :: bool
  items :: "fragment list"

text \<open>
  Both cullers share \<open>threshold\<close> and \<open>needsUpdate\<close>; \<open>added\<close> lists the meshes handed
  to the culler through \<open>add\<close>, in call order. \<open>needsUpdate\<close> is the flag as main.ts
  assigns it; what the culler does inside \<open>add\<close>, and when it recomputes and lowers the
  flag, is the component's own business. The streaming loader's culler has the two time
  windows as well.
\<close>

record culler_renderer =
  threshold :: int
  needsUpdate :: bool
  added :: "mesh list"

record geometry_culler = culler_renderer +
  maxHiddenTime :: int
  maxLostTime :: int

record ifc_streamer =
  cancel :: bool
  streamer_culler :: geometry_culler

text \<open>
  \<open>world_meshes\<close> is \<open>world.meshes\<close>, a \<open>Set\<close> in insertion order; \<open>scene_three\<close> lists
  the arguments of \<open>world.scene.three.add\<close>; \<open>camera_fit\<close> lists the calls of
  \<open>world.camera.fit\<close> (the collection passed, as it stood at the call, and the margin);
  \<open>timeouts\<close> holds the delays of the pending \<open>setTimeout\<close> callbacks, oldest first
  (main.ts schedules one kind of callback only, always with the same delay, so they
  fire in the order they were scheduled).
\<close>

record app =
  world_meshes :: "mesh list"
  scene_three :: "model list"
  camera_fit :: "(mesh list \<times> rat) list"
  restThreshold :: rat
  culler :: culler_renderer
  tilesLoader :: ifc_streamer
  zoomToSelection :: bool
  timeouts :: "nat list"

datatype error = Error string

datatype event =
  Rest
  | FragmentsLoaded model "error option" "error option"
  | FragmentsDisposed "string list"
  | Timeout

section \<open>Configuration (main.ts, lines 93-110)\<close>

definition configure :: "app \<Rightarrow> app" where
  "configure s =
     s\<lparr>tilesLoader := (tilesLoader s)
          \<lparr>streamer_culler := (streamer_culler (tilesLoader s))
             \<lparr>threshold := 10, maxHiddenTime := 1000, maxLostTime := 40000\<rparr>\<rparr>,
       zoomToSelection := True,
       culler := (culler s)\<lparr>threshold := 5\<rparr>,
       restThreshold := 0.25\<rparr>"

text \<open>A viewer with nothing loaded and no flag raised, before \<open>configure\<close>.\<close>

definition blank :: app where
  "blank =
     \<lparr>world_meshes = [], scene_three = [], camera_fit = [], restThreshold = 0,
      culler = \<lparr>threshold = 0, needsUpdate = False, added = []\<rparr>,
      tilesLoader = \<lparr>cancel = False,
        streamer_culler = \<lparr>threshold = 0, needsUpdate = False, added = [],
          maxHiddenTime = 0, maxLostTime = 0\<rparr>\<rparr>,
      zoomToSelection = False, timeouts = []\<rparr>"

definition initial :: app where
  "initial = configure blank"

section \<open>The camera "rest" listener (lines 111-115)\<close>

definition onRest :: "app \<Rightarrow> app" where
  "onRest s =
     s\<lparr>culler := (culler s)\<lparr>needsUpdate := True\<rparr>,
       tilesLoader := (tilesLoader s)
          \<lparr>cancel := True,
           streamer_culler := (streamer_culler (tilesLoader s))\<lparr>needsUpdate := True\<rparr>\<rparr>\<rparr>"

section \<open>The fragments-loaded handler (lines 118-138)\<close>

text \<open>\<open>Set.prototype.add\<close> and \<open>Set.prototype.delete\<close> on an insertion-ordered set.\<close>

definition set_add :: "'a \<Rightarrow> 'a list \<Rightarrow> 'a list" where
  "set_add x xs = (if x \<in> set xs then xs else xs @ [x])"

definition set_delete :: "'a \<Rightarrow> 'a list \<Rightarrow> 'a list" where
  "set_delete x xs = removeAll x xs"

text \<open>The loop over \<open>model.items\<close>: each mesh goes to \<open>world.meshes\<close> and to \<open>culler\<close>.\<close>

fun add_items :: "fragment list \<Rightarrow> app \<Rightarrow> app" where
  "add_items [] s = s"
| "add_items (fragment # rest) s =
     add_items rest
       (s\<lparr>world_meshes := set_add (mesh fragment) (world_meshes s),
          culler := (culler s)\<lparr>added := added (culler s) @ [mesh fragment]\<rparr>\<rparr>)"

text \<open>
  The handler is an \<open>async\<close> function. \<open>indexer_process\<close> is the outcome of
  \<open>await indexer.process(model)\<close>: \<open>None\<close> when the promise resolves, \<open>Some e\<close> when
  it rejects with \<open>e\<close>. \<open>classifier_byEntity\<close> is the outcome of the call
  \<open>classifier.byEntity(model)\<close>, which is not awaited: \<open>None\<close> when the call returns,
  \<open>Some e\<close> when it throws \<open>e\<close>; it is consulted only when the indexer has resolved.
  Nothing catches \<open>e\<close>, so the handler's promise rejects with it and the statements after
  it do not run. The part after the \<open>await\<close> is taken to run before the next event is
  delivered.
\<close>

definition onFragmentsLoaded ::
  "error option \<Rightarrow> error option \<Rightarrow> model \<Rightarrow> app \<Rightarrow> error + app" where
  "onFragmentsLoaded indexer_process classifier_byEntity model s =
     (case (if hasProperties model
            then (case indexer_process of Some e \<Rightarrow> Some e | None \<Rightarrow> classifier_byEntity)
            else None) of
        Some e \<Rightarrow> Inl e
      | None \<Rightarrow>
          (let s1 = (if \<not> isStreamed model then add_items (items model) s else s);
               s2 = s1\<lparr>scene_three := scene_three s1 @ [model]\<rparr>
           in Inr (if \<not> isStreamed model then s2\<lparr>timeouts := timeouts s2 @ [50]\<rparr> else s2)))"

text \<open>The delayed callback: one \<open>world.camera.fit(world.meshes, 0.8)\<close>.\<close>

definition fire_timeout :: "app \<Rightarrow> app" where
  "fire_timeout s =
     (case timeouts s of
        [] \<Rightarrow> s
      | d # ds \<Rightarrow> s\<lparr>timeouts := ds, camera_fit := camera_fit s @ [(world_meshes s, 0.8)]\<rparr>)"

section \<open>The fragments-disposed handler (lines 141-148)\<close>

text \<open>
  The loop body: \<open>[...world.meshes].find\<close> gives the first mesh in insertion order whose
  \<open>uuid\<close> is the identifier, or \<open>undefined\<close>; only a mesh that was found is deleted.
\<close>

definition dispose_one :: "string \<Rightarrow> mesh list \<Rightarrow> mesh list" where
  "dispose_one fragmentID meshes =
     (case find (\<lambda>m. uuid m = fragmentID) meshes of
        None \<Rightarrow> meshes
      | Some m \<Rightarrow> set_delete m meshes)"

fun dispose_ids :: "string list \<Rightarrow> mesh list \<Rightarrow> mesh list" where
  "dispose_ids [] meshes = meshes"
| "dispose_ids (fragmentID # rest) meshes = dispose_ids rest (dispose_one fragmentID meshes)"

definition onFragmentsDisposed :: "string list \<Rightarrow> app \<Rightarrow> app" where
  "onFragmentsDisposed fragmentIDs s =
     s\<lparr>world_meshes := dispose_ids fragmentIDs (world_meshes s)\<rparr>"

section \<open>Event delivery\<close>

text \<open>
  Events are delivered one at a time. A rejected loaded-handler leaves the state as the
  statements before the rejection left it, which is unchanged. The loaded handler writes
  nothing before its \<open>await\<close>, so a loaded event stands in a run at the point where the
  handler's statements after the \<open>await\<close> execute.
\<close>

fun deliver :: "event \<Rightarrow> app \<Rightarrow> app" where
  "deliver Rest s = onRest s"
| "deliver (FragmentsLoaded model indexer_process classifier_byEntity) s =
     (case onFragmentsLoaded indexer_process classifier_byEntity model s of
        Inl e \<Rightarrow> s
      | Inr s' \<Rightarrow> s')"
| "deliver (FragmentsDisposed fragmentIDs) s = onFragmentsDisposed fragmentIDs s"
| "deliver Timeout s = fire_timeout s"

fun run :: "event list \<Rightarrow> app \<Rightarrow> app" where
  "run [] s = s"
| "run (e # es) s = run es (deliver e s)"

section \<open>Concrete inputs\<close>

text \<open>The identifiers an event asks to dispose: none, unless it is a disposed event.\<close>

fun disposed_ids :: "event \<Rightarrow> string list" where
  "disposed_ids (FragmentsDisposed fragmentIDs) = fragmentIDs"
| "disposed_ids e = []"

text \<open>
  A small non-streamed model of three fragments; the same model with properties; a
  second copy of it, whose meshes are other objects carrying the same \<open>uuid\<close>s; and an
  unrelated model of one fragment.
\<close>

definition wall :: mesh where "wall = \<lparr>obj = 1, uuid = ''wall''\<rparr>"
definition slab :: mesh where "slab = \<lparr>obj = 2, uuid = ''slab''\<rparr>"
definition roof :: mesh where "roof = \<lparr>obj = 3, uuid = ''roof''\<rparr>"

definition house :: model where
  "house = \<lparr>obj = 10, uuid = ''house'', hasProperties = False, isStreamed = False,
            items = [\<lparr>mesh = wall\<rparr>, \<lparr>mesh = slab\<rparr>, \<lparr>mesh = roof\<rparr>]\<rparr>"

definition surveyed_house :: model where
  "surveyed_house = house\<lparr>hasProperties := True\<rparr>"

definition wall_again :: mesh where "wall_again = \<lparr>obj = 4, uuid = ''wall''\<rparr>"
definition slab_again :: mesh where "slab_again = \<lparr>obj = 5, uuid = ''slab''\<rparr>"
definition roof_again :: mesh where "roof_again = \<lparr>obj = 6, uuid = ''roof''\<rparr>"

definition house_again :: model where
  "house_again = \<lparr>obj = 11, uuid = ''house'', hasProperties = False, isStreamed = False,
       items = [\<lparr>mesh = wall_again\<rparr>, \<lparr>mesh = slab_again\<rparr>, \<lparr>mesh = roof_again\<rparr>]\<rparr>"

definition door :: mesh where "door = \<lparr>obj = 7, uuid = ''door''\<rparr>"

definition garage :: model where
  "garage = \<lparr>obj = 12, uuid = ''garage'', hasProperties = False, isStreamed = False,
             items = [\<lparr>mesh = door\<rparr>]\<rparr>"

definition house_ids :: "string list" where
  "house_ids = [''wall'', ''slab'', ''roof'']"

definition house_loaded :: app where
  "house_loaded = deliver (FragmentsLoaded house None None) initial"

definition twice_loaded :: app where
  "twice_loaded =
     run [FragmentsLoaded house None None, FragmentsLoaded house_again None None] initial"

lemmas input_defs =
  wall_def slab_def roof_def house_def surveyed_house_def wall_again_def slab_again_def
  roof_again_def house_again_def door_def garage_def house_ids_def house_loaded_def
  twice_loaded_def initial_def configure_def blank_def

lemmas handler_defs =
  onRest_def onFragmentsLoaded_def onFragmentsDisposed_def fire_timeout_def dispose_one_def
  set_add_def set_delete_def Let_def

section \<open>Frame lemmas\<close>

lemma add_items_frame:
  "tilesLoader (add_items fs s) = tilesLoader s"
  "scene_three (add_items fs s) = scene_three s"
  "camera_fit (add_items fs s) = camera_fit s"
  "timeouts (add_items fs s) = timeouts s"
  "zoomToSelection (add_items fs s) = zoomToSelection s"
  "restThreshold (add_items fs s) = restThreshold s"
  "needsUpdate (culler (add_items fs s)) = needsUpdate (culler s)"
  "threshold (culler (add_items fs s)) = threshold (culler s)"
  by (induction fs arbitrary: s) simp_all



lemma run_append: "run (es @ es') s = run es' (run es s)"
  by (induction es arbitrary: s) simp_all

subsection \<open>The loop over the items\<close>

lemma add_items_world_meshes:
  "set (world_meshes (add_items fs s)) = set (world_meshes s) \<union> mesh ` set fs"
  by (induction fs arbitrary: s) (auto simp: set_add_def)

lemma add_items_added:
  "added (culler (add_items fs s)) = added (culler s) @ map mesh fs"
  by (induction fs arbitrary: s) simp_all

lemma add_items_distinct:
  "distinct (world_meshes s) \<Longrightarrow> distinct (world_meshes (add_items fs s))"
  by (induction fs arbitrary: s) (simp_all add: set_add_def)

subsection \<open>The loaded handler, by outcome\<close>

lemma loaded_completes:
  assumes "hasProperties m \<longrightarrow> ip = None \<and> cb = None"
  shows "onFragmentsLoaded ip cb m s = Inr (deliver (FragmentsLoaded m ip cb) s)"
  using assms by (auto simp: onFragmentsLoaded_def Let_def)

lemma loaded_nonstreamed:
  assumes "\<not> isStreamed m" "hasProperties m \<longrightarrow> ip = None \<and> cb = None"
  shows "deliver (FragmentsLoaded m ip cb) s =
           (add_items (items m) s)\<lparr>scene_three := scene_three s @ [m],
                                   timeouts := timeouts s @ [50]\<rparr>"
  using assms by (auto simp: onFragmentsLoaded_def Let_def add_items_frame)

lemma loaded_rejected:
  assumes "hasProperties m" "ip = Some e \<or> (ip = None \<and> cb = Some e)"
  shows "onFragmentsLoaded ip cb m s = Inl e" "deliver (FragmentsLoaded m ip cb) s = s"
  using assms by (auto simp: onFragmentsLoaded_def)

lemma fire_pending:
  "timeouts s \<noteq> [] \<Longrightarrow>
     fire_timeout s = s\<lparr>timeouts := tl (timeouts s),
                        camera_fit := camera_fit s @ [(world_meshes s, 0.8)]\<rparr>"
  by (cases "timeouts s") (simp_all add: fire_timeout_def)

subsection \<open>The disposed handler on a set with pairwise different uuids\<close>

lemma dispose_one_filter:
  assumes "distinct (map uuid ms)"
  shows "dispose_one i ms = filter (\<lambda>m. uuid m \<noteq> i) ms"
proof (cases "find (\<lambda>m. uuid m = i) ms")
  case None
  then have "\<forall>m\<in>set ms. uuid m \<noteq> i"
    by (simp add: find_None_iff)
  then have "filter (\<lambda>m. uuid m \<noteq> i) ms = ms"
    by (simp add: filter_id_conv)
  with None show ?thesis
    by (simp add: dispose_one_def)
next
  case (Some m)
  then have m: "m \<in> set ms" "uuid m = i"
    by (auto simp: find_Some_iff)
  have inj: "inj_on uuid (set ms)"
    using assms by (simp add: distinct_map)
  have "removeAll m ms = filter (\<lambda>x. uuid x \<noteq> i) ms"
    unfolding removeAll_filter_not_eq
  proof (rule filter_cong[OF refl])
    fix x assume "x \<in> set ms"
    with inj m show "(m \<noteq> x) = (uuid x \<noteq> i)"
      by (auto dest: inj_onD)
  qed
  with Some show ?thesis
    by (simp add: dispose_one_def set_delete_def)
qed

lemma dispose_ids_filter:
  "distinct (map uuid ms) \<Longrightarrow> dispose_ids ids ms = filter (\<lambda>m. uuid m \<notin> set ids) ms"
proof (induction ids arbitrary: ms)
  case Nil
  then show ?case by simp
next
  case (Cons i ids)
  have "distinct (map uuid (filter (\<lambda>m. uuid m \<noteq> i) ms))"
    using Cons.prems by (simp add: distinct_map_filter)
  then show ?case
    using Cons by (simp add: dispose_one_filter conj_commute)
qed

lemma dispose_ids_twice:
  assumes "distinct (map uuid ms)"
  shows "dispose_ids ids (dispose_ids ids ms) = dispose_ids ids ms"
proof -
  have "distinct (map uuid (filter (\<lambda>m. uuid m \<notin> set ids) ms))"
    using assms by (simp add: distinct_map_filter)
  then show ?thesis
    using assms by (simp add: dispose_ids_filter)
qed

lemma dispose_one_no_match:
  "\<forall>m\<in>set ms. uuid m \<noteq> i \<Longrightarrow> dispose_one i ms = ms"
  by (simp add: dispose_one_def find_None_iff[THEN iffD2])

lemma dispose_one_first_match:
  assumes "distinct (pre @ m # post)" "uuid m = i" "\<forall>x\<in>set pre. uuid x \<noteq> i"
  shows "dispose_one i (pre @ m # post) = pre @ post"
proof -
  have "find (\<lambda>m. uuid m = i) (pre @ m # post) = Some m"
    using assms by (auto simp: find_Some_iff nth_append intro!: exI[of _ "length pre"])
  moreover have "removeAll m (pre @ m # post) = pre @ post"
    using assms by (simp add: distinct_removeAll)
  ultimately show ?thesis by (simp add: dispose_one_def set_delete_def)
qed

lemma disposed_frame:
  "culler (onFragmentsDisposed ids s) = culler s"
  "tilesLoader (onFragmentsDisposed ids s) = tilesLoader s"
  "scene_three (onFragmentsDisposed ids s) = scene_three s"
  "camera_fit (onFragmentsDisposed ids s) = camera_fit s"
  "timeouts (onFragmentsDisposed ids s) = timeouts s"
  "zoomToSelection (onFragmentsDisposed ids s) = zoomToSelection s"
  "restThreshold (onFragmentsDisposed ids s) = restThreshold s"
  by (simp_all add: onFragmentsDisposed_def)

lemma disposed_twice:
  "distinct (map uuid (world_meshes s)) \<Longrightarrow>
     onFragmentsDisposed ids (onFragmentsDisposed ids s) = onFragmentsDisposed ids s"
  by (simp add: onFragmentsDisposed_def dispose_ids_twice)

subsection \<open>\<open>world.meshes\<close> stays a set, and loses only what a disposed event names\<close>

lemma dispose_one_distinct: "distinct ms \<Longrightarrow> distinct (dispose_one i ms)"
  by (simp add: dispose_one_def set_delete_def distinct_removeAll split: option.splits)

lemma dispose_ids_distinct: "distinct ms \<Longrightarrow> distinct (dispose_ids ids ms)"
  by (induction ids arbitrary: ms) (simp_all add: dispose_one_distinct)

lemma deliver_distinct:
  "distinct (world_meshes s) \<Longrightarrow> distinct (world_meshes (deliver e s))"
  by (cases e)
     (auto simp: onRest_def onFragmentsLoaded_def onFragmentsDisposed_def fire_timeout_def
        Let_def add_items_distinct dispose_ids_distinct split: option.splits list.splits)

lemma run_distinct:
  "distinct (world_meshes s) \<Longrightarrow> distinct (world_meshes (run es s))"
  by (induction es arbitrary: s) (simp_all add: deliver_distinct)

lemma dispose_one_keeps:
  "x \<in> set ms \<Longrightarrow> uuid x \<noteq> i \<Longrightarrow> x \<in> set (dispose_one i ms)"
  by (auto simp: dispose_one_def set_delete_def find_Some_iff split: option.splits)

lemma dispose_ids_keeps:
  "x \<in> set ms \<Longrightarrow> uuid x \<notin> set ids \<Longrightarrow> x \<in> set (dispose_ids ids ms)"
  by (induction ids arbitrary: ms) (simp_all add: dispose_one_keeps)

lemma dispose_one_subset: "set (dispose_one i ms) \<subseteq> set ms"
  by (auto simp: dispose_one_def set_delete_def split: option.splits)

lemma dispose_ids_subset: "set (dispose_ids ids ms) \<subseteq> set ms"
proof (induction ids arbitrary: ms)
  case Nil
  then show ?case by simp
next
  case (Cons i ids)
  have "set (dispose_ids ids (dispose_one i ms)) \<subseteq> set (dispose_one i ms)"
    by (rule Cons.IH)
  also have "\<dots> \<subseteq> set ms"
    by (rule dispose_one_subset)
  finally show ?case by simp
qed

lemma dispose_one_length:
  assumes "distinct ms"
  shows "length ms \<le> Suc (length (dispose_one i ms))"
proof (cases "find (\<lambda>m. uuid m = i) ms")
  case None
  then show ?thesis by (simp add: dispose_one_def)
next
  case (Some m)
  have "removeAll m ms = remove1 m ms"
    using assms by (simp add: distinct_remove1_removeAll)
  then have "length (removeAll m ms) = length (remove1 m ms)"
    by simp
  also have "\<dots> \<ge> length ms - 1"
    by (simp add: length_remove1)
  finally show ?thesis
    using Some by (simp add: dispose_one_def set_delete_def)
qed

lemma dispose_ids_length:
  "distinct ms \<Longrightarrow> length ms \<le> length (dispose_ids ids ms) + length ids"
proof (induction ids arbitrary: ms)
  case Nil
  then show ?case by simp
next
  case (Cons i ids)
  have "length (dispose_one i ms) \<le> length (dispose_ids ids (dispose_one i ms)) + length ids"
    using Cons.prems by (intro Cons.IH dispose_one_distinct)
  moreover have "length ms \<le> Suc (length (dispose_one i ms))"
    using Cons.prems by (rule dispose_one_length)
  ultimately show ?case by simp
qed

lemma deliver_keeps:
  "x \<in> set (world_meshes s) \<Longrightarrow> uuid x \<notin> set (disposed_ids e) \<Longrightarrow>
     x \<in> set (world_meshes (deliver e s))"
  by (cases e)
     (auto simp: onRest_def onFragmentsLoaded_def onFragmentsDisposed_def fire_timeout_def
        Let_def add_items_world_meshes dispose_ids_keeps split: option.splits list.splits)

lemma run_keeps:
  "x \<in> set (world_meshes s) \<Longrightarrow> \<forall>e\<in>set es. uuid x \<notin> set (disposed_ids e) \<Longrightarrow>
     x \<in> set (world_meshes (run es s))"
proof (induction es arbitrary: s)
  case Nil
  then show ?case by simp
next
  case (Cons e es)
  have "x \<in> set (world_meshes (deliver e s))"
    using Cons.prems by (simp add: deliver_keeps)
  then show ?case
    using Cons by simp
qed

subsection \<open>Who raises \<open>culler.needsUpdate\<close>\<close>

lemma deliver_needsUpdate:
  "needsUpdate (culler (deliver e s)) = (e = Rest \<or> needsUpdate (culler s))"
  by (cases e)
     (auto simp: onRest_def onFragmentsLoaded_def onFragmentsDisposed_def fire_timeout_def
        Let_def add_items_frame split: option.splits list.splits)

section \<open>Camera rest\<close>

text \<open>
  The rest listener makes three assignments and nothing else. What the loader does with
  a load in flight once \<open>cancel\<close> is up happens inside the streaming component, of which
  main.ts holds no state.
\<close>

lemma rest_listener_sets_three_flags:
  "needsUpdate (culler (deliver Rest s))
   \<and> needsUpdate (streamer_culler (tilesLoader (deliver Rest s)))
   \<and> cancel (tilesLoader (deliver Rest s))
   \<and> deliver Rest s =
       s\<lparr>culler := (culler s)\<lparr>needsUpdate := True\<rparr>,
         tilesLoader := (tilesLoader s)
           \<lparr>cancel := True,
            streamer_culler := (streamer_culler (tilesLoader s))\<lparr>needsUpdate := True\<rparr>\<rparr>\<rparr>
   \<and> world_meshes (deliver Rest s) = world_meshes s
   \<and> scene_three (deliver Rest s) = scene_three s
   \<and> camera_fit (deliver Rest s) = camera_fit s
   \<and> timeouts (deliver Rest s) = timeouts s
   \<and> added (culler (deliver Rest s)) = added (culler s)"
  by (simp add: onRest_def)

section \<open>The streaming culler's time windows\<close>



section \<open>Model disposed\<close>

text \<open>
  Claim C1, as the code has it. When the meshes in \<open>world.meshes\<close> carry pairwise
  different uuids, a model-disposed event removes from \<open>world.meshes\<close> every mesh whose
  uuid is among the fragment identifiers and keeps the others in order; it leaves the
  visibility culler, the streaming loader with its culler, and the scene graph exactly
  as they were; and delivering the same event a second time changes nothing.
\<close>

theorem disposed_clears_world_meshes_only:
  assumes "distinct (map uuid (world_meshes s))"
  shows "world_meshes (deliver (FragmentsDisposed ids) s)
           = filter (\<lambda>m. uuid m \<notin> set ids) (world_meshes s)
         \<and> culler (deliver (FragmentsDisposed ids) s) = culler s
         \<and> tilesLoader (deliver (FragmentsDisposed ids) s) = tilesLoader s
         \<and> scene_three (deliver (FragmentsDisposed ids) s) = scene_three s
         \<and> deliver (FragmentsDisposed ids) (deliver (FragmentsDisposed ids) s)
             = deliver (FragmentsDisposed ids) s"
proof -
  have "world_meshes (onFragmentsDisposed ids s)
          = filter (\<lambda>m. uuid m \<notin> set ids) (world_meshes s)"
    using assms by (simp add: onFragmentsDisposed_def dispose_ids_filter)
  moreover have "onFragmentsDisposed ids (onFragmentsDisposed ids s) = onFragmentsDisposed ids s"
    using assms by (rule disposed_twice)
  ultimately show ?thesis
    by (simp add: disposed_frame)
qed

theorem disposed_clears_world_meshes_only_witness:
  "distinct (map uuid (world_meshes house_loaded))
   \<and> world_meshes (deliver (FragmentsDisposed house_ids) house_loaded) = []
   \<and> culler (deliver (FragmentsDisposed house_ids) house_loaded) = culler house_loaded
   \<and> scene_three (deliver (FragmentsDisposed house_ids) house_loaded) = [house]
   \<and> deliver (FragmentsDisposed house_ids) (deliver (FragmentsDisposed house_ids) house_loaded)
       = deliver (FragmentsDisposed house_ids) house_loaded"
proof -
  have h: "distinct (map uuid (world_meshes house_loaded))"
    by (simp add: input_defs handler_defs)
  have w: "world_meshes house_loaded = [wall, slab, roof]"
    by (simp add: input_defs handler_defs)
  have sc: "scene_three house_loaded = [house]"
    by (simp add: input_defs handler_defs)
  show ?thesis
    using h disposed_clears_world_meshes_only [OF h, of house_ids]
    by (simp add: w sc wall_def slab_def roof_def house_ids_def)
qed

text \<open>
  After the house is loaded and then disposed, its wall is still among the meshes handed
  to the visibility culler and the house is still in the scene graph.
\<close>

theorem disposed_keeps_culler_and_scene_counterexample:
  "wall \<in> set (added (culler (deliver (FragmentsDisposed house_ids) house_loaded)))
   \<and> house \<in> set (scene_three (deliver (FragmentsDisposed house_ids) house_loaded))"
  by (simp add: input_defs handler_defs)

text \<open>
  Claim C9, as the code has it. The disposed handler changes \<open>world.meshes\<close> and no other
  part of the state. With no identifiers it does nothing. An identifier that no mesh
  carries is skipped; otherwise the first mesh carrying it, and that mesh only, is
  deleted before the remaining identifiers are treated. So the handler deletes at most
  one mesh per identifier, only meshes that were in the set, and never a mesh whose uuid
  is not among the identifiers. When the meshes in \<open>world.meshes\<close> carry pairwise
  different uuids, delivering the event again leaves the state unchanged.
\<close>

theorem disposed_touches_world_meshes_first_match:
  "deliver (FragmentsDisposed ids) s
     = s\<lparr>world_meshes := world_meshes (deliver (FragmentsDisposed ids) s)\<rparr>
   \<and> deliver (FragmentsDisposed []) s = s
   \<and> ((\<forall>x\<in>set (world_meshes s). uuid x \<noteq> i)
        \<longrightarrow> deliver (FragmentsDisposed (i # ids)) s = deliver (FragmentsDisposed ids) s)
   \<and> (world_meshes s = pre @ m # post \<and> distinct (world_meshes s) \<and> uuid m = i
         \<and> (\<forall>x\<in>set pre. uuid x \<noteq> i)
        \<longrightarrow> deliver (FragmentsDisposed (i # ids)) s
              = deliver (FragmentsDisposed ids) (s\<lparr>world_meshes := pre @ post\<rparr>))
   \<and> (distinct (world_meshes s)
        \<longrightarrow> length (world_meshes s)
              \<le> length (world_meshes (deliver (FragmentsDisposed ids) s)) + length ids)
   \<and> set (world_meshes (deliver (FragmentsDisposed ids) s)) \<subseteq> set (world_meshes s)
   \<and> (\<forall>x\<in>set (world_meshes s).
         uuid x \<notin> set ids \<longrightarrow> x \<in> set (world_meshes (deliver (FragmentsDisposed ids) s)))
   \<and> (distinct (map uuid (world_meshes s))
        \<longrightarrow> deliver (FragmentsDisposed ids) (deliver (FragmentsDisposed ids) s)
              = deliver (FragmentsDisposed ids) s)"
proof -
  have frame: "deliver (FragmentsDisposed ids) s
                 = s\<lparr>world_meshes := world_meshes (deliver (FragmentsDisposed ids) s)\<rparr>"
    by (simp add: onFragmentsDisposed_def)
  have none: "deliver (FragmentsDisposed []) s = s"
    by (simp add: onFragmentsDisposed_def)
  have skip: "deliver (FragmentsDisposed (i # ids)) s = deliver (FragmentsDisposed ids) s"
    if "\<forall>x\<in>set (world_meshes s). uuid x \<noteq> i"
    using that by (simp add: onFragmentsDisposed_def dispose_one_no_match)
  have first: "deliver (FragmentsDisposed (i # ids)) s
                 = deliver (FragmentsDisposed ids) (s\<lparr>world_meshes := pre @ post\<rparr>)"
    if "world_meshes s = pre @ m # post" "distinct (world_meshes s)" "uuid m = i"
       "\<forall>x\<in>set pre. uuid x \<noteq> i"
  proof -
    have "dispose_one i (pre @ m # post) = pre @ post"
      using that by (intro dispose_one_first_match) simp_all
    then show ?thesis
      using that(1) by (simp add: onFragmentsDisposed_def)
  qed
  have count: "length (world_meshes s)
                 \<le> length (world_meshes (deliver (FragmentsDisposed ids) s)) + length ids"
    if "distinct (world_meshes s)"
    using that by (simp add: onFragmentsDisposed_def dispose_ids_length)
  have inside: "set (world_meshes (deliver (FragmentsDisposed ids) s)) \<subseteq> set (world_meshes s)"
    by (simp add: onFragmentsDisposed_def dispose_ids_subset)
  have kept: "\<forall>x\<in>set (world_meshes s).
                uuid x \<notin> set ids \<longrightarrow> x \<in> set (world_meshes (deliver (FragmentsDisposed ids) s))"
    by (simp add: onFragmentsDisposed_def dispose_ids_keeps)
  have again: "deliver (FragmentsDisposed ids) (deliver (FragmentsDisposed ids) s)
                 = deliver (FragmentsDisposed ids) s"
    if "distinct (map uuid (world_meshes s))"
    using that by (simp add: disposed_twice)
  from frame none skip first count inside kept again show ?thesis
    by blast
qed

text \<open>
  On the loaded house, the identifiers \<open>slab\<close> and \<open>lost\<close>: the slab goes, \<open>lost\<close> is
  skipped, wall and roof stay, one mesh is gone for two identifiers, and a second
  delivery changes nothing.
\<close>

theorem disposed_touches_world_meshes_first_match_witness:
  "world_meshes house_loaded = [wall] @ slab # [roof]
   \<and> distinct (world_meshes house_loaded) \<and> distinct (map uuid (world_meshes house_loaded))
   \<and> uuid slab = ''slab'' \<and> uuid wall \<noteq> ''slab''
   \<and> uuid wall \<noteq> ''lost'' \<and> uuid roof \<noteq> ''lost''
   \<and> deliver (FragmentsDisposed [''slab'', ''lost'']) house_loaded
       = house_loaded\<lparr>world_meshes := [wall, roof]\<rparr>
   \<and> length (world_meshes house_loaded)
       \<le> length (world_meshes (deliver (FragmentsDisposed [''slab'', ''lost'']) house_loaded))
          + length [''slab'', ''lost'']
   \<and> wall \<in> set (world_meshes (deliver (FragmentsDisposed [''slab'', ''lost'']) house_loaded))
   \<and> deliver (FragmentsDisposed [''slab'', ''lost''])
        (deliver (FragmentsDisposed [''slab'', ''lost'']) house_loaded)
       = deliver (FragmentsDisposed [''slab'', ''lost'']) house_loaded"
proof -
  define s2 where "s2 = house_loaded\<lparr>world_meshes := [wall, roof]\<rparr>"
  note first =
    disposed_touches_world_meshes_first_match
      [where ids = "[''lost'']" and s = house_loaded and i = "''slab''"
         and pre = "[wall]" and m = slab and post = "[roof]"]
  note skip =
    disposed_touches_world_meshes_first_match
      [where ids = "[]" and s = s2 and i = "''lost''"
         and pre = "[]" and m = slab and post = "[]"]
  note whole =
    disposed_touches_world_meshes_first_match
      [where ids = "[''slab'', ''lost'']" and s = house_loaded and i = "''slab''"
         and pre = "[wall]" and m = slab and post = "[roof]"]
  have w: "world_meshes house_loaded = [wall] @ slab # [roof]"
    by (simp add: input_defs handler_defs)
  have u: "uuid wall = ''wall''" "uuid slab = ''slab''" "uuid roof = ''roof''"
    by (simp_all add: wall_def slab_def roof_def)
  have d: "distinct (world_meshes house_loaded)"
    unfolding w by (simp add: wall_def slab_def roof_def)
  have du: "distinct (map uuid (world_meshes house_loaded))"
    unfolding w by (simp add: u)
  have pre: "\<forall>x\<in>set [wall]. uuid x \<noteq> ''slab''"
    by (simp add: u)
  have lost: "\<forall>x\<in>set (world_meshes s2). uuid x \<noteq> ''lost''"
    by (simp add: s2_def u)
  have a: "deliver (FragmentsDisposed [''slab'', ''lost'']) house_loaded
             = deliver (FragmentsDisposed [''lost'']) s2"
    unfolding s2_def
    using first [THEN conjunct2, THEN conjunct2, THEN conjunct2, THEN conjunct1] w d u(2) pre
    by (simp del: deliver.simps)
  have b: "deliver (FragmentsDisposed [''lost'']) s2 = deliver (FragmentsDisposed []) s2"
    using skip [THEN conjunct2, THEN conjunct2, THEN conjunct1] lost
    by (simp del: deliver.simps)
  have c: "deliver (FragmentsDisposed []) s2 = s2"
    by (rule skip [THEN conjunct2, THEN conjunct1])
  have e: "deliver (FragmentsDisposed [''slab'', ''lost'']) house_loaded
             = house_loaded\<lparr>world_meshes := [wall, roof]\<rparr>"
    using a b c by (simp only: s2_def)
  have n: "length (world_meshes house_loaded)
             \<le> length (world_meshes (deliver (FragmentsDisposed [''slab'', ''lost''])
                  house_loaded)) + length [''slab'', ''lost'']"
    using whole [THEN conjunct2, THEN conjunct2, THEN conjunct2, THEN conjunct2,
                 THEN conjunct1] d
    by (simp del: deliver.simps)
  have k: "wall \<in> set (world_meshes (deliver (FragmentsDisposed [''slab'', ''lost''])
             house_loaded))"
    using whole [THEN conjunct2, THEN conjunct2, THEN conjunct2, THEN conjunct2,
                 THEN conjunct2, THEN conjunct2, THEN conjunct1] w
    by (simp add: u del: deliver.simps)
  have f: "deliver (FragmentsDisposed [''slab'', ''lost''])
             (deliver (FragmentsDisposed [''slab'', ''lost'']) house_loaded)
           = deliver (FragmentsDisposed [''slab'', ''lost'']) house_loaded"
    using whole [THEN conjunct2, THEN conjunct2, THEN conjunct2, THEN conjunct2,
                 THEN conjunct2, THEN conjunct2, THEN conjunct2] du
    by (simp del: deliver.simps)
  from w d du u e n k f show ?thesis
    by (simp del: deliver.simps)
qed

text \<open>
  With the house and its copy both loaded, \<open>world.meshes\<close> holds two meshes for each
  uuid. The first delivery of the disposed event removes the first of each pair, the
  second delivery removes the other: the second delivery is not a no-op.
\<close>

theorem disposed_again_removes_more_counterexample:
  "world_meshes twice_loaded = [wall, slab, roof, wall_again, slab_again, roof_again]
   \<and> world_meshes (deliver (FragmentsDisposed house_ids) twice_loaded)
       = [wall_again, slab_again, roof_again]
   \<and> world_meshes (deliver (FragmentsDisposed house_ids)
        (deliver (FragmentsDisposed house_ids) twice_loaded)) = []
   \<and> deliver (FragmentsDisposed house_ids) (deliver (FragmentsDisposed house_ids) twice_loaded)
       \<noteq> deliver (FragmentsDisposed house_ids) twice_loaded"
proof -
  have a: "world_meshes twice_loaded = [wall, slab, roof, wall_again, slab_again, roof_again]"
    by (simp add: input_defs handler_defs)
  have b: "world_meshes (deliver (FragmentsDisposed house_ids) twice_loaded)
             = [wall_again, slab_again, roof_again]"
    by (simp add: input_defs handler_defs)
  have c: "world_meshes (deliver (FragmentsDisposed house_ids)
             (deliver (FragmentsDisposed house_ids) twice_loaded)) = []"
    by (simp add: input_defs handler_defs)
  have "world_meshes (deliver (FragmentsDisposed house_ids)
             (deliver (FragmentsDisposed house_ids) twice_loaded))
        \<noteq> world_meshes (deliver (FragmentsDisposed house_ids) twice_loaded)"
    unfolding b c by simp
  then have "deliver (FragmentsDisposed house_ids)
               (deliver (FragmentsDisposed house_ids) twice_loaded)
             \<noteq> deliver (FragmentsDisposed house_ids) twice_loaded"
    by metis
  with a b c show ?thesis by simp
qed

section \<open>Model loaded\<close>

text \<open>
  Claim C2, as the code has it. For a non-streamed model whose load handler runs to its
  end (the model has no properties, or indexing and classification both complete), every
  fragment's mesh is put into \<open>world.meshes\<close> and handed to the visibility culler, the
  model is added to the scene graph, and the streaming loader and its culler are left
  untouched. The handler issues no camera fit itself and schedules exactly one callback,
  50 ms ahead; with no older callback pending, that callback issues exactly one fit, over
  \<open>world.meshes\<close> as it then stands (which holds every mesh of the model when nothing
  came in between) with margin 0.8, and no callback stays pending.
\<close>

theorem loaded_nonstreamed_registers_and_schedules_one_fit:
  assumes "\<not> isStreamed model"
    and "hasProperties model \<longrightarrow> indexer_process = None \<and> classifier_byEntity = None"
    and "s' = deliver (FragmentsLoaded model indexer_process classifier_byEntity) s"
  shows "onFragmentsLoaded indexer_process classifier_byEntity model s = Inr s'
         \<and> set (world_meshes s') = set (world_meshes s) \<union> mesh ` set (items model)
         \<and> added (culler s') = added (culler s) @ map mesh (items model)
         \<and> scene_three s' = scene_three s @ [model]
         \<and> tilesLoader s' = tilesLoader s
         \<and> camera_fit s' = camera_fit s
         \<and> timeouts s' = timeouts s @ [50]
         \<and> (timeouts s = [] \<longrightarrow>
              camera_fit (deliver Timeout s') = camera_fit s @ [(world_meshes s', 0.8)]
              \<and> timeouts (deliver Timeout s') = []
              \<and> deliver Timeout (deliver Timeout s') = deliver Timeout s')"
proof -
  have ok: "onFragmentsLoaded indexer_process classifier_byEntity model s = Inr s'"
    unfolding assms(3) using assms(2) by (rule loaded_completes)
  have s': "s' = (add_items (items model) s)\<lparr>scene_three := scene_three s @ [model],
                                             timeouts := timeouts s @ [50]\<rparr>"
    unfolding assms(3) using assms(1,2) by (rule loaded_nonstreamed)
  have fields:
    "set (world_meshes s') = set (world_meshes s) \<union> mesh ` set (items model)"
    "added (culler s') = added (culler s) @ map mesh (items model)"
    "scene_three s' = scene_three s @ [model]"
    "tilesLoader s' = tilesLoader s"
    "camera_fit s' = camera_fit s"
    "timeouts s' = timeouts s @ [50]"
    by (simp_all add: s' add_items_world_meshes add_items_added add_items_frame)
  have fire: "camera_fit (deliver Timeout s') = camera_fit s @ [(world_meshes s', 0.8)]
              \<and> timeouts (deliver Timeout s') = []
              \<and> deliver Timeout (deliver Timeout s') = deliver Timeout s'"
    if "timeouts s = []"
    using that fields(5,6) by (simp add: fire_timeout_def)
  from ok fields fire show ?thesis
    by blast
qed

theorem loaded_nonstreamed_registers_and_schedules_one_fit_witness:
  "\<not> isStreamed surveyed_house \<and> hasProperties surveyed_house
   \<and> onFragmentsLoaded None None surveyed_house initial
       = Inr (deliver (FragmentsLoaded surveyed_house None None) initial)
   \<and> world_meshes (deliver (FragmentsLoaded surveyed_house None None) initial)
       = [wall, slab, roof]
   \<and> added (culler (deliver (FragmentsLoaded surveyed_house None None) initial))
       = [wall, slab, roof]
   \<and> scene_three (deliver (FragmentsLoaded surveyed_house None None) initial)
       = [surveyed_house]
   \<and> tilesLoader (deliver (FragmentsLoaded surveyed_house None None) initial)
       = tilesLoader initial
   \<and> timeouts initial = []
   \<and> timeouts (deliver (FragmentsLoaded surveyed_house None None) initial) = [50]
   \<and> camera_fit (deliver Timeout (deliver (FragmentsLoaded surveyed_house None None) initial))
       = [([wall, slab, roof], 0.8)]
   \<and> timeouts (deliver Timeout (deliver (FragmentsLoaded surveyed_house None None) initial))
       = []"
proof -
  have h: "\<not> isStreamed surveyed_house" "hasProperties surveyed_house"
    by (simp_all add: input_defs)
  have i: "timeouts initial = []" "camera_fit initial = []" "scene_three initial = []"
    "added (culler initial) = []"
    by (simp_all add: input_defs)
  have m: "map mesh (items surveyed_house) = [wall, slab, roof]"
    by (simp add: input_defs)
  have w: "world_meshes (deliver (FragmentsLoaded surveyed_house None None) initial)
             = [wall, slab, roof]"
    by (simp add: input_defs handler_defs)
  have p: "hasProperties surveyed_house \<longrightarrow>
             (None :: error option) = None \<and> (None :: error option) = None"
    by simp
  show ?thesis
    using h loaded_nonstreamed_registers_and_schedules_one_fit
            [where model = surveyed_house and indexer_process = None
               and classifier_byEntity = None and s = initial, OF h(1) p refl]
    by (simp del: deliver.simps add: i m w)
qed

text \<open>
  Loading the house leaves the streaming loader's culler without any mesh: the wall has
  gone to the visibility culler only.
\<close>

theorem loaded_skips_streaming_culler_counterexample:
  "\<not> isStreamed house
   \<and> wall \<in> mesh ` set (items house)
   \<and> wall \<in> set (added (culler (deliver (FragmentsLoaded house None None) initial)))
   \<and> wall \<notin> set (added (streamer_culler (tilesLoader
              (deliver (FragmentsLoaded house None None) initial))))"
  by (simp add: input_defs handler_defs)

text \<open>
  Claim C3, as the code has it. For a loaded model with properties, the handler awaits
  the indexer and then calls the classifier before it touches any geometry. When both
  complete, the model is added to the scene. When either fails, the handler ends there
  with that error as the rejection of its promise: the viewer's state is exactly what it
  was, so no mesh of the model is in \<open>world.meshes\<close> or the culler, the model is not in
  the scene graph and no camera fit is scheduled.
\<close>

theorem loaded_with_properties_shows_only_after_indexing:
  assumes "hasProperties model"
  shows "onFragmentsLoaded None None model s
           = Inr (deliver (FragmentsLoaded model None None) s)
         \<and> scene_three (deliver (FragmentsLoaded model None None) s) = scene_three s @ [model]
         \<and> onFragmentsLoaded (Some e) classifier_byEntity model s = Inl e
         \<and> deliver (FragmentsLoaded model (Some e) classifier_byEntity) s = s
         \<and> onFragmentsLoaded None (Some e) model s = Inl e
         \<and> deliver (FragmentsLoaded model None (Some e)) s = s"
proof -
  have shown: "onFragmentsLoaded None None model s
                 = Inr (deliver (FragmentsLoaded model None None) s)"
    by (rule loaded_completes) simp
  have scene: "scene_three (deliver (FragmentsLoaded model None None) s)
                 = scene_three s @ [model]"
    by (simp add: onFragmentsLoaded_def Let_def add_items_frame)
  have indexer: "onFragmentsLoaded (Some e) classifier_byEntity model s = Inl e"
    "deliver (FragmentsLoaded model (Some e) classifier_byEntity) s = s"
    using assms by (simp_all add: onFragmentsLoaded_def)
  have classifier: "onFragmentsLoaded None (Some e) model s = Inl e"
    "deliver (FragmentsLoaded model None (Some e)) s = s"
    using assms by (simp_all add: onFragmentsLoaded_def)
  from shown scene indexer classifier show ?thesis
    by blast
qed

theorem loaded_with_properties_shows_only_after_indexing_witness:
  "hasProperties surveyed_house
   \<and> scene_three (deliver (FragmentsLoaded surveyed_house None None) initial)
       = [surveyed_house]
   \<and> onFragmentsLoaded (Some (Error ''index'')) None surveyed_house initial
       = Inl (Error ''index'')
   \<and> deliver (FragmentsLoaded surveyed_house (Some (Error ''index'')) None) initial = initial
   \<and> onFragmentsLoaded None (Some (Error ''index'')) surveyed_house initial
       = Inl (Error ''index'')
   \<and> deliver (FragmentsLoaded surveyed_house None (Some (Error ''index''))) initial = initial"
proof -
  have h: "hasProperties surveyed_house"
    by (simp add: input_defs)
  have i: "scene_three initial = []"
    by (simp add: input_defs)
  show ?thesis
    using h loaded_with_properties_shows_only_after_indexing
              [OF h, where s = initial and e = "Error ''index''" and classifier_byEntity = None]
    by (simp del: deliver.simps add: i)
qed

text \<open>
  The indexer fails on the house with properties: the handler rejects with the error,
  and neither the wall nor the model has been added anywhere.
\<close>

theorem indexing_failure_hides_geometry_counterexample:
  "hasProperties surveyed_house
   \<and> onFragmentsLoaded (Some (Error ''index'')) None surveyed_house initial
       = Inl (Error ''index'')
   \<and> world_meshes (deliver (FragmentsLoaded surveyed_house (Some (Error ''index'')) None)
        initial) = []
   \<and> scene_three (deliver (FragmentsLoaded surveyed_house (Some (Error ''index'')) None)
        initial) = []
   \<and> added (culler (deliver (FragmentsLoaded surveyed_house (Some (Error ''index'')) None)
        initial)) = []"
  by (simp add: input_defs handler_defs)

section \<open>Signalling the visibility culler\<close>

text \<open>
  Claim C6, as the code has it. Of the handlers main.ts installs, only the camera-rest
  listener raises \<open>culler.needsUpdate\<close>. The loaded handler hands meshes to the culler
  and leaves the flag as it finds it, the disposed handler does not touch the culler at
  all, and the delayed camera fit leaves the flag as it finds it.
\<close>

theorem only_rest_signals_visibility_culler:
  "needsUpdate (culler (deliver Rest s))
   \<and> needsUpdate (culler (deliver (FragmentsLoaded model indexer_process classifier_byEntity) s))
       = needsUpdate (culler s)
   \<and> culler (deliver (FragmentsDisposed ids) s) = culler s
   \<and> needsUpdate (culler (deliver Timeout s)) = needsUpdate (culler s)"
proof -
  have "needsUpdate (culler (deliver Rest s))"
    by (simp add: onRest_def)
  moreover have "culler (deliver (FragmentsDisposed ids) s) = culler s"
    by (simp add: disposed_frame)
  ultimately show ?thesis
    using deliver_needsUpdate [of "FragmentsLoaded model indexer_process classifier_byEntity" s]
      deliver_needsUpdate [of Timeout s]
    by simp
qed

text \<open>
  With the flag down, loading the house and then disposing it adds three meshes and
  removes three meshes, and the flag is still down.
\<close>

theorem load_and_dispose_leave_culler_clean_counterexample:
  "\<not> needsUpdate (culler initial)
   \<and> \<not> needsUpdate (culler (deliver (FragmentsLoaded house None None) initial))
   \<and> world_meshes (deliver (FragmentsLoaded house None None) initial) = [wall, slab, roof]
   \<and> \<not> needsUpdate (culler (deliver (FragmentsDisposed house_ids)
          (deliver (FragmentsLoaded house None None) initial)))
   \<and> world_meshes (deliver (FragmentsDisposed house_ids)
          (deliver (FragmentsLoaded house None None) initial)) = []"
  by (simp add: input_defs handler_defs)

section \<open>The delayed camera fit\<close>

text \<open>
  Claim C10, as the code has it. When a pending callback fires, the camera fit it issues
  is over the whole of \<open>world.meshes\<close> as it stands at that moment, with margin 0.8. So
  the fit holds every mesh of every non-streamed model whose load handler has run to its
  end at any earlier point, before or after the load that scheduled the callback,
  provided no disposed event delivered since that load names the uuid of one of the
  model's meshes.
\<close>

theorem delayed_fit_is_over_all_world_meshes:
  assumes "\<not> isStreamed model"
    and "hasProperties model \<longrightarrow> indexer_process = None \<and> classifier_byEntity = None"
    and "\<forall>e\<in>set later. \<forall>f\<in>set (items model). uuid (mesh f) \<notin> set (disposed_ids e)"
    and "s' = run (earlier @ FragmentsLoaded model indexer_process classifier_byEntity # later) s"
    and "timeouts s' \<noteq> []"
  shows "camera_fit (deliver Timeout s') = camera_fit s' @ [(world_meshes s', 0.8)]
         \<and> timeouts (deliver Timeout s') = tl (timeouts s')
         \<and> mesh ` set (items model) \<subseteq> set (world_meshes s')"
proof -
  define s0 where "s0 = run earlier s"
  define s1 where "s1 = deliver (FragmentsLoaded model indexer_process classifier_byEntity) s0"
  have s': "s' = run later s1"
    by (simp add: assms(4) run_append s0_def s1_def del: deliver.simps)
  have "s1 = (add_items (items model) s0)\<lparr>scene_three := scene_three s0 @ [model],
                                            timeouts := timeouts s0 @ [50]\<rparr>"
    unfolding s1_def using assms(1,2) by (rule loaded_nonstreamed)
  then have loaded: "mesh ` set (items model) \<subseteq> set (world_meshes s1)"
    by (simp add: add_items_world_meshes)
  have held: "mesh ` set (items model) \<subseteq> set (world_meshes s')"
  proof
    fix x assume x: "x \<in> mesh ` set (items model)"
    then have "x \<in> set (world_meshes s1)"
      using loaded by blast
    moreover have "\<forall>e\<in>set later. uuid x \<notin> set (disposed_ids e)"
      using x assms(3) by blast
    ultimately show "x \<in> set (world_meshes s')"
      unfolding s' by (rule run_keeps)
  qed
  have "deliver Timeout s' = s'\<lparr>timeouts := tl (timeouts s'),
                                  camera_fit := camera_fit s' @ [(world_meshes s', 0.8)]\<rparr>"
    using assms(5) by (simp add: fire_pending)
  then have "camera_fit (deliver Timeout s') = camera_fit s' @ [(world_meshes s', 0.8)]"
    "timeouts (deliver Timeout s') = tl (timeouts s')"
    by simp_all
  with held show ?thesis
    by blast
qed

text \<open>
  The house is loaded, then the garage; the slab is disposed and the camera rests. The
  first callback to fire is the one the house's load scheduled; its fit covers the
  garage's door as well, and the disposal of the slab has not cost the garage anything.
\<close>

theorem delayed_fit_is_over_all_world_meshes_witness:
  "\<not> isStreamed garage \<and> \<not> hasProperties garage
   \<and> uuid door \<notin> set (disposed_ids (FragmentsDisposed [''slab'']))
   \<and> uuid door \<notin> set (disposed_ids Rest)
   \<and> timeouts (run [FragmentsLoaded house None None, FragmentsLoaded garage None None,
        FragmentsDisposed [''slab''], Rest] initial) = [50, 50]
   \<and> camera_fit (deliver Timeout
        (run [FragmentsLoaded house None None, FragmentsLoaded garage None None,
           FragmentsDisposed [''slab''], Rest] initial))
       = [([wall, roof, door], 0.8)]
   \<and> timeouts (deliver Timeout
        (run [FragmentsLoaded house None None, FragmentsLoaded garage None None,
           FragmentsDisposed [''slab''], Rest] initial))
       = [50]
   \<and> door \<in> set (world_meshes
        (run [FragmentsLoaded house None None, FragmentsLoaded garage None None,
           FragmentsDisposed [''slab''], Rest] initial))"
proof -
  define s' where
    "s' = run [FragmentsLoaded house None None, FragmentsLoaded garage None None,
             FragmentsDisposed [''slab''], Rest] initial"
  have h: "\<not> isStreamed garage" "\<not> hasProperties garage"
    "uuid door \<notin> set (disposed_ids (FragmentsDisposed [''slab'']))"
    "uuid door \<notin> set (disposed_ids Rest)"
    by (simp_all add: input_defs)
  have p: "hasProperties garage \<longrightarrow> (None :: error option) = None \<and> (None :: error option) = None"
    by simp
  have i: "items garage = [\<lparr>mesh = door\<rparr>]"
    by (simp add: input_defs)
  have l: "\<forall>e\<in>set [FragmentsDisposed [''slab''], Rest].
             \<forall>f\<in>set (items garage). uuid (mesh f) \<notin> set (disposed_ids e)"
    using h(3,4) by (simp add: i)
  have r: "s' = run ([FragmentsLoaded house None None] @ FragmentsLoaded garage None None
                       # [FragmentsDisposed [''slab''], Rest]) initial"
    by (simp only: s'_def append.simps)
  have t: "timeouts s' = [50, 50]"
    by (simp add: s'_def input_defs handler_defs)
  have w: "world_meshes s' = [wall, roof, door]"
    by (simp add: s'_def input_defs handler_defs)
  have c: "camera_fit s' = []"
    by (simp add: s'_def input_defs handler_defs)
  have n: "timeouts s' \<noteq> []"
    by (simp add: t)
  show ?thesis
    using h delayed_fit_is_over_all_world_meshes [OF h(1) p l r n]
    unfolding s'_def [symmetric]
    by (simp add: t w c i del: deliver.simps run.simps)
qed

text \<open>
  Two runs in which the fit misses a mesh of a model that was loaded. In the first the
  house is loaded, the garage is loaded and the house's identifiers are disposed: the
  fit is over the door alone. In the second the house and its copy are loaded and the
  copy's identifiers, which are the house's, are disposed: the handler deletes the first
  mesh of each pair, which is the house's, and the fit is over the copy's meshes alone.
\<close>

theorem delayed_fit_misses_disposed_uuids_counterexample:
  "\<not> isStreamed house
   \<and> wall \<in> mesh ` set (items house)
   \<and> camera_fit (deliver Timeout
        (run [FragmentsLoaded house None None, FragmentsLoaded garage None None,
           FragmentsDisposed house_ids] initial))
       = [([door], 0.8)]
   \<and> wall \<notin> set [door]
   \<and> camera_fit (deliver Timeout
        (run [FragmentsLoaded house None None, FragmentsLoaded house_again None None,
           FragmentsDisposed house_ids] initial))
       = [([wall_again, slab_again, roof_again], 0.8)]
   \<and> wall \<notin> set [wall_again, slab_again, roof_again]"
  by (simp add: input_defs handler_defs)

end
